theory Spec2Isabelle
  imports Complex_Main
begin

section \<open>Python values, errors and paths\<close>

text \<open>
  The values the configuration library hands to the generator for the attributes of a
  manifest entry: booleans, integers, floats (by their numeric value), strings, arrays,
  lists and groups. \<open>PNone\<close> is Python's \<open>None\<close>.
\<close>

datatype pyval =
    PNone
  | PBool bool
  | PInt int
  | PFloat real
  | PStr string
  | PList "pyval list"
  | PTuple "pyval list"
  | PDict "(string \<times> pyval) list"

text \<open>Truth value of a Python object, as \<open>if cmp:\<close> tests it.\<close>

fun truthy :: "pyval \<Rightarrow> bool" where
  "truthy PNone = False"
| "truthy (PBool b) = b"
| "truthy (PInt i) = (i \<noteq> 0)"
| "truthy (PFloat r) = (r \<noteq> 0)"
| "truthy (PStr s) = (s \<noteq> [])"
| "truthy (PList xs) = (xs \<noteq> [])"
| "truthy (PTuple xs) = (xs \<noteq> [])"
| "truthy (PDict kvs) = (kvs \<noteq> [])"

text \<open>
  Every way a run ends other than by returning: \<open>sys.exit(n)\<close> and the uncaught
  exceptions of the interpreter. \<open>NotModelled\<close> marks an expression handed to
  \<open>eval\<close> that lies outside the fragment of Python evaluated below.
\<close>

datatype error =
    SysExit nat
  | AttributeError string
  | TypeError
  | KeyError string
  | FileNotFoundError string
  | SyntaxError
  | NotModelled

type_synonym bytes = string
type_synonym filesystem = "string \<rightharpoonup> bytes"
type_synonym entry = "string \<rightharpoonup> pyval"

text \<open>
  \<open>os.path.join(d, f)\<close>: an absolute second component replaces the first. The same
  function stands for \<open>artifact_dir / filename\<close> of pathlib; paths are compared as
  strings, and the file system holds regular files only.
\<close>

definition path_join :: "string \<Rightarrow> string \<Rightarrow> string" where
  "path_join d f =
     (if f \<noteq> [] \<and> hd f = CHR ''/'' then f
      else if d = [] \<or> last d = CHR ''/'' then d @ f
      else d @ ''/'' @ f)"

section \<open>The two directive patterns\<close>

text \<open>
  The patterns of \<open>_expand_variables\<close> and \<open>_exec_functions\<close> are sequences of
  literals and greedy one-or-more repetitions of a character class, each repetition a
  named group, closed by \<open>$\<close>. \<open>rx_match\<close> is the backtracking search of
  \<open>re.match\<close> on such a sequence: a repetition first takes the longest run, then gives
  back one character at a time until the rest of the pattern matches. The result lists
  the groups in order. \<open>$\<close> matches at the end of the string or before a final newline.
\<close>

datatype rx_item = Lit string | Plus "char \<Rightarrow> bool"

fun first_some :: "(nat \<Rightarrow> 'a option) \<Rightarrow> nat \<Rightarrow> 'a option" where
  "first_some f 0 = None"
| "first_some f (Suc k) = (case f (Suc k) of Some r \<Rightarrow> Some r | None \<Rightarrow> first_some f k)"

fun rx_match :: "rx_item list \<Rightarrow> string \<Rightarrow> string list option" where
  "rx_match [] s = (if s = [] \<or> s = [CHR 0x0A] then Some [] else None)"
| "rx_match (Lit l # r) s =
     (if take (length l) s = l then rx_match r (drop (length l) s) else None)"
| "rx_match (Plus p # r) s =
     first_some (\<lambda>k. map_option ((#) (take k s)) (rx_match r (drop k s)))
       (length (takeWhile p s))"

text \<open>\<open>.\<close> is any character but the newline; \<open>\w\<close> on ASCII text.\<close>

definition not_newline :: "char \<Rightarrow> bool" where
  "not_newline c = (c \<noteq> CHR 0x0A)"

definition is_word_char :: "char \<Rightarrow> bool" where
  "is_word_char c =
     (let n = (of_char c :: nat)
      in (48 \<le> n \<and> n \<le> 57) \<or> (65 \<le> n \<and> n \<le> 90) \<or> (97 \<le> n \<and> n \<le> 122) \<or> n = 95)"

text \<open>\<^verbatim>\<open>^(?P<before_placeholder>.+)@@(?P<variable_name>\w+)@@(?P<after_placeholder>.+)$\<close>\<close>

definition var_pattern :: "rx_item list" where
  "var_pattern = [Plus not_newline, Lit ''@@'', Plus is_word_char, Lit ''@@'', Plus not_newline]"

definition var_match :: "string \<Rightarrow> (string \<times> string \<times> string) option" where
  "var_match s =
     (case rx_match var_pattern s of
        Some [b, n, a] \<Rightarrow> Some (b, n, a)
      | _ \<Rightarrow> None)"

text \<open>\<^verbatim>\<open>^(?P<before_placeholder>.+)\$(?P<function_name>\w+)\((?P<parms>.+)\)(?P<after_placeholder>.+)$\<close>\<close>

definition fun_pattern :: "rx_item list" where
  "fun_pattern =
     [Plus not_newline, Lit ''$'', Plus is_word_char, Lit ''('', Plus not_newline, Lit '')'',
      Plus not_newline]"

definition fun_match :: "string \<Rightarrow> (string \<times> string \<times> string \<times> string) option" where
  "fun_match s =
     (case rx_match fun_pattern s of
        Some [b, f, p, a] \<Rightarrow> Some (b, f, p, a)
      | _ \<Rightarrow> None)"

section \<open>Variable expansion\<close>

text \<open>
  The \<open>while True\<close> loop of \<open>_expand_variables\<close> on one line. It need not end (a
  variable whose value holds its own placeholder), so not returning is \<open>None\<close>.
  An undefined variable is a \<open>KeyError\<close>, a value that is no string a \<open>TypeError\<close>.
\<close>

partial_function (option) expand_line :: "(string \<rightharpoonup> pyval) \<Rightarrow> string \<Rightarrow> (error + string) option" where
  "expand_line vs line =
     (case var_match line of
        None \<Rightarrow> Some (Inr line)
      | Some (b, n, a) \<Rightarrow>
          (case vs n of
             None \<Rightarrow> Some (Inl (KeyError n))
           | Some v \<Rightarrow>
               (case v of
                  PStr val \<Rightarrow> expand_line vs (b @ val @ a)
                | _ \<Rightarrow> Some (Inl TypeError))))"

fun expand_lines :: "(string \<rightharpoonup> pyval) \<Rightarrow> string list \<Rightarrow> (error + string list) option" where
  "expand_lines vs [] = Some (Inr [])"
| "expand_lines vs (l # ls) =
     (case expand_line vs l of
        None \<Rightarrow> None
      | Some (Inl e) \<Rightarrow> Some (Inl e)
      | Some (Inr l') \<Rightarrow>
          (case expand_lines vs ls of
             None \<Rightarrow> None
           | Some (Inl e) \<Rightarrow> Some (Inl e)
           | Some (Inr ls') \<Rightarrow> Some (Inr (l' # ls'))))"

section \<open>Artifacts\<close>

text \<open>
  The library and tool calls the generator makes, as functions of their input:
  \<open>hashlib.sha256\<close> (the digest fed in chunks is the digest of the whole file),
  the \<open>openssl enc\<close> process (its exit status, and the output file it leaves if any),
  the two compressors run through the shell (\<open>None\<close>: nonzero exit),
  \<open>secrets.token_hex(16)\<close> (the value of the n-th draw) and \<open>libconf.dumps\<close>.
\<close>

record env =
  sha256 :: "bytes \<Rightarrow> string"
  openssl_enc :: "string \<Rightarrow> string \<Rightarrow> bytes \<Rightarrow> bool \<times> bytes option"
  gzip :: "bytes \<Rightarrow> bytes option"
  zstd :: "bytes \<Rightarrow> bytes option"
  token_hex :: "nat \<Rightarrow> string"
  libconf_dumps :: "entry list \<Rightarrow> string"

text \<open>
  An \<open>Artifact\<close> object. The constructor assigns \<open>filename\<close>, \<open>source_path\<close>,
  \<open>archived_filename\<close> and \<open>size\<close> (here \<open>size_attr\<close>); \<open>fullfilename\<close> and
  \<open>ivt\<close> exist only once the generator has assigned them, so \<open>None\<close> there is the
  attribute that was never set. The methods \<open>_get_artifact_source_path\<close> and
  \<open>exists\<close> are \<open>get_artifact_source_path\<close> and \<open>exists_artifact\<close>, and take the
  file system they look at.
\<close>

record artifact =
  filename :: string
  source_path :: "string option"
  archived_filename :: string
  size_attr :: nat
  fullfilename :: "string option"
  ivt :: "pyval option"

fun get_artifact_source_path :: "filesystem \<Rightarrow> string \<Rightarrow> string list \<Rightarrow> string option" where
  "get_artifact_source_path fs f [] = None"
| "get_artifact_source_path fs f (artifact_dir # ds) =
     (let tmp_path = path_join artifact_dir f
      in if fs tmp_path \<noteq> None then Some tmp_path
         else get_artifact_source_path fs f ds)"

definition Artifact :: "filesystem \<Rightarrow> string \<Rightarrow> string list \<Rightarrow> artifact" where
  "Artifact fs f artifact_paths =
     \<lparr>filename = f,
      source_path = get_artifact_source_path fs f artifact_paths,
      archived_filename = f,
      size_attr = 0,
      fullfilename = None,
      ivt = None\<rparr>"

definition exists_artifact :: "filesystem \<Rightarrow> artifact \<Rightarrow> bool" where
  "exists_artifact fs a =
     (case source_path a of None \<Rightarrow> False | Some p \<Rightarrow> fs p \<noteq> None)"

definition get_sha256 :: "env \<Rightarrow> filesystem \<Rightarrow> artifact \<Rightarrow> string option" where
  "get_sha256 ev fs a =
     (if \<not> exists_artifact fs a then None
      else (case source_path a of
              None \<Rightarrow> None
            | Some p \<Rightarrow> map_option (sha256 ev) (fs p)))"

definition get_size :: "filesystem \<Rightarrow> artifact \<Rightarrow> nat" where
  "get_size fs a =
     (if exists_artifact fs a
      then (case source_path a of
              None \<Rightarrow> 0
            | Some p \<Rightarrow> (case fs p of None \<Rightarrow> 0 | Some content \<Rightarrow> length content))
      else 0)"

text \<open>
  \<open>Artifact.encrypt(out, key, init_vec)\<close>: \<open>False\<close> without a source path; a key or
  IV that is \<open>None\<close> makes \<open>subprocess.run\<close> raise \<open>TypeError\<close>, which is not caught;
  a nonzero exit of the cipher is \<open>False\<close>. The cipher reads the source path and
  writes \<open>out\<close>; a missing input file is a nonzero exit with nothing written.
\<close>

definition encrypt ::
  "env \<Rightarrow> filesystem \<Rightarrow> artifact \<Rightarrow> string \<Rightarrow> string option \<Rightarrow> string option
     \<Rightarrow> error + (bool \<times> filesystem)" where
  "encrypt ev fs a out key init_vec =
     (case source_path a of
        None \<Rightarrow> Inr (False, fs)
      | Some source \<Rightarrow>
          (case key of
             None \<Rightarrow> Inl TypeError
           | Some k \<Rightarrow>
               (case init_vec of
                  None \<Rightarrow> Inl TypeError
                | Some iv \<Rightarrow>
                    (case fs source of
                       None \<Rightarrow> Inr (False, fs)
                     | Some content \<Rightarrow>
                         (case openssl_enc ev k iv content of
                            (ok, None) \<Rightarrow> Inr (ok, fs)
                          | (ok, Some written) \<Rightarrow> Inr (ok, fs(out \<mapsto> written)))))))"

section \<open>The generator\<close>

text \<open>
  The fields of \<open>SWUGenerator\<close> that the pipeline reads or writes, and with them the
  world it acts on: the file system, the number of IVs drawn so far, the critical
  messages logged, and the paths handed to the container writer (\<open>cpiofile\<close>).
  \<open>signtool\<close> is the signing backend as a function from the manifest bytes to the
  signature file it writes, or \<open>None\<close> when no signing was asked for.
\<close>

record generator =
  swdescription :: string
  artifacts :: "artifact list"
  artifactory :: "string list"
  vars :: "string \<rightharpoonup> pyval"
  lines :: "string list"
  temp :: string
  signtool :: "(bytes \<Rightarrow> bytes) option"
  aeskey :: "string option"
  aesiv :: "string option"
  encryptswdesc :: bool
  nocompress :: bool
  noencrypt :: bool
  noivt :: bool
  fs :: filesystem
  drawn :: nat
  critical_log :: "string list"
  cpiofile :: "string list"

definition pyval_of_opt :: "string option \<Rightarrow> pyval" where
  "pyval_of_opt v = (case v of None \<Rightarrow> PNone | Some s \<Rightarrow> PStr s)"

text \<open>\<open>not self.aeskey\<close>: no key, or the empty string.\<close>

definition no_key :: "string option \<Rightarrow> bool" where
  "no_key k = (case k of None \<Rightarrow> True | Some s \<Rightarrow> s = [])"

text \<open>
  Lines 85 to 90 of \<open>process_entry\<close>: the algorithm chosen for the value of
  \<open>compressed\<close>, or \<open>sys.exit(1)\<close>.
\<close>

definition compression_algorithm :: "pyval \<Rightarrow> error + string" where
  "compression_algorithm c =
     (let cmp = (if truthy c then PStr ''zlib'' else c)
      in if cmp \<noteq> PStr ''zlib'' \<and> cmp \<noteq> PStr ''zstd'' then Inl (SysExit 1)
         else (case cmp of PStr alg \<Rightarrow> Inr alg | _ \<Rightarrow> Inl (SysExit 1)))"

text \<open>
  Lines 84 to 128: the compression block. The command line reads \<open>new.fullfilename\<close>
  before anything has assigned it. The shell redirects the compressor's output to
  \<open>new_path\<close>; a failing command is \<open>sys.exit(1)\<close>.
\<close>

definition compress_step ::
  "env \<Rightarrow> generator \<Rightarrow> entry \<Rightarrow> artifact \<Rightarrow> error + (artifact \<times> generator)" where
  "compress_step ev g e new =
     (case e ''compressed'' of
        None \<Rightarrow> Inr (new, g)
      | Some c \<Rightarrow>
          if nocompress g then Inr (new, g)
          else
            (case compression_algorithm c of
               Inl err \<Rightarrow> Inl err
             | Inr cmp \<Rightarrow>
                 (let new_path = path_join (temp g) (archived_filename new) @ ''.'' @ cmp;
                      new1 = new\<lparr>archived_filename := archived_filename new @ ''.'' @ cmp\<rparr>
                  in (case fullfilename new1 of
                        None \<Rightarrow> Inl (AttributeError ''fullfilename'')
                      | Some full \<Rightarrow>
                          (case fs g full of
                             None \<Rightarrow> Inl (SysExit 1)
                           | Some content \<Rightarrow>
                               (case (if cmp = ''zlib'' then gzip ev else zstd ev) content of
                                  None \<Rightarrow> Inl (SysExit 1)
                                | Some packed \<Rightarrow>
                                    Inr (new1\<lparr>fullfilename := Some new_path\<rparr>,
                                         g\<lparr>fs := (fs g)(new_path \<mapsto> packed)\<rparr>)))))))"

text \<open>
  Lines 131 to 149: the encryption block. A missing key is logged as critical and the
  block goes on. The IV is the fixed one or a fresh draw.
\<close>

definition encrypt_step ::
  "env \<Rightarrow> generator \<Rightarrow> entry \<Rightarrow> artifact \<Rightarrow> error + (artifact \<times> entry \<times> generator)" where
  "encrypt_step ev g e new =
     (if ''encrypted'' \<in> dom e \<and> \<not> noencrypt g then
        (let g1 = (if no_key (aeskey g)
                   then g\<lparr>critical_log := critical_log g @ [''must be encrypted, but no encryption key is given'']\<rparr>
                   else g);
             iv = (if noivt g1 then aesiv g1 else Some (token_hex ev (drawn g1)));
             g2 = (if noivt g1 then g1 else g1\<lparr>drawn := Suc (drawn g1)\<rparr>);
             new1 = new\<lparr>archived_filename := archived_filename new @ ''.'' @ ''enc''\<rparr>;
             new_path = path_join (temp g2) (archived_filename new1)
         in (case encrypt ev (fs g2) new1 new_path (aeskey g2) iv of
               Inl err \<Rightarrow> Inl err
             | Inr (ok, fs') \<Rightarrow>
                 if \<not> ok then Inl (SysExit 1)
                 else Inr (new1\<lparr>fullfilename := Some new_path, ivt := Some (pyval_of_opt iv)\<rparr>,
                           e(''ivt'' \<mapsto> pyval_of_opt iv),
                           g2\<lparr>fs := fs'\<rparr>)))
      else Inr (new, e, g))"

text \<open>
  Lines 155 to 158, run for a new artifact and for one already stored: the entry takes
  the archived name, the digest \<open>get_sha256\<close> returns, and for an entry with
  \<open>encrypted\<close> the artifact's \<open>ivt\<close> attribute.
\<close>

definition finish_entry :: "env \<Rightarrow> generator \<Rightarrow> entry \<Rightarrow> artifact \<Rightarrow> error + entry" where
  "finish_entry ev g e new =
     (let e1 = e(''filename'' \<mapsto> PStr (archived_filename new));
          e2 = e1(''sha256'' \<mapsto> pyval_of_opt (get_sha256 ev (fs g) new))
      in if ''encrypted'' \<in> dom e2
         then (case ivt new of
                 None \<Rightarrow> Inl (AttributeError ''ivt'')
               | Some v \<Rightarrow> Inr (e2(''ivt'' \<mapsto> v)))
         else Inr e2)"

text \<open>
  Lines 76 to 151: a filename met for the first time. A filename that is no string
  makes \<open>artifact_dir / filename\<close> raise when there is a directory to search.
\<close>

definition new_artifact ::
  "env \<Rightarrow> generator \<Rightarrow> entry \<Rightarrow> string \<Rightarrow> error + (artifact \<times> entry \<times> generator)" where
  "new_artifact ev g e f =
     (let new = Artifact (fs g) f (artifactory g)
      in if \<not> exists_artifact (fs g) new then Inl (SysExit 22)
         else
           (let new0 = new\<lparr>archived_filename := f\<rparr>
            in (case compress_step ev g e new0 of
                  Inl err \<Rightarrow> Inl err
                | Inr (new1, g1) \<Rightarrow>
                    (case encrypt_step ev g1 e new1 of
                       Inl err \<Rightarrow> Inl err
                     | Inr (new2, e2, g2) \<Rightarrow>
                         Inr (new2, e2, g2\<lparr>artifacts := artifacts g2 @ [new2]\<rparr>)))))"

definition process_entry :: "env \<Rightarrow> generator \<Rightarrow> entry \<Rightarrow> error + (generator \<times> entry)" where
  "process_entry ev g e =
     (case e ''filename'' of
        None \<Rightarrow> Inr (g, e)
      | Some (PStr f) \<Rightarrow>
          (case find (\<lambda>image. filename image = f) (artifacts g) of
             Some new \<Rightarrow> map_sum id (Pair g) (finish_entry ev g e new)
           | None \<Rightarrow>
               (case new_artifact ev g e f of
                  Inl err \<Rightarrow> Inl err
                | Inr (new, e1, g1) \<Rightarrow> map_sum id (Pair g1) (finish_entry ev g1 e1 new)))
      | Some _ \<Rightarrow> (if artifactory g = [] then Inl (SysExit 22) else Inl TypeError))"

text \<open>The loop \<open>for entry in self.filelist\<close> of \<open>process\<close>; it stops at the first error.\<close>

fun process_entries :: "env \<Rightarrow> generator \<Rightarrow> entry list \<Rightarrow> error + (generator \<times> entry list)" where
  "process_entries ev g [] = Inr (g, [])"
| "process_entries ev g (e # es) =
     (case process_entry ev g e of
        Inl err \<Rightarrow> Inl err
      | Inr (g1, e1) \<Rightarrow>
          (case process_entries ev g1 es of
             Inl err \<Rightarrow> Inl err
           | Inr (g2, es1) \<Rightarrow> Inr (g2, e1 # es1)))"

section \<open>Function directives\<close>

text \<open>Decimal digits of a natural number, as \<open>str\<close> prints it.\<close>

fun str_of_nat :: "nat \<Rightarrow> string" where
  "str_of_nat n =
     (if n < 10 then [char_of (48 + n)]
      else str_of_nat (n div 10) @ [char_of (48 + n mod 10)])"

definition swupdate_get_sha256 :: "env \<Rightarrow> generator \<Rightarrow> string \<Rightarrow> string option" where
  "swupdate_get_sha256 ev g f = get_sha256 ev (fs g) (Artifact (fs g) f (artifactory g))"

definition swupdate_get_size :: "generator \<Rightarrow> string \<Rightarrow> string" where
  "swupdate_get_size g f = str_of_nat (get_size (fs g) (Artifact (fs g) f (artifactory g)))"

text \<open>
  What \<open>eval\<close> returns matters to \<open>_exec_functions\<close> only as far as it is a string
  or not: anything else makes the concatenation raise \<open>TypeError\<close>.
\<close>

datatype evalres = RStr string | RNonStr

definition res_of_pyval :: "pyval \<Rightarrow> evalres" where
  "res_of_pyval v = (case v of PStr s \<Rightarrow> RStr s | _ \<Rightarrow> RNonStr)"

definition is_substring :: "string \<Rightarrow> string \<Rightarrow> bool" where
  "is_substring x s = (\<exists>i \<in> set [0..<Suc (length s)]. take (length x) (drop i s) = x)"

definition python_keywords :: "string list" where
  "python_keywords =
     [''False'', ''None'', ''True'', ''and'', ''as'', ''assert'', ''async'', ''await'',
      ''break'', ''class'', ''continue'', ''def'', ''del'', ''elif'', ''else'', ''except'',
      ''finally'', ''for'', ''from'', ''global'', ''if'', ''import'', ''in'', ''is'',
      ''lambda'', ''nonlocal'', ''not'', ''or'', ''pass'', ''raise'', ''return'', ''try'',
      ''while'', ''with'', ''yield'']"

definition is_identifier :: "string \<Rightarrow> bool" where
  "is_identifier n =
     (n \<noteq> [] \<and> list_all is_word_char n
      \<and> \<not> (48 \<le> (of_char (hd n) :: nat) \<and> (of_char (hd n) :: nat) \<le> 57)
      \<and> n \<notin> set python_keywords)"

definition is_dunder :: "string \<Rightarrow> bool" where
  "is_dunder n = (4 < length n \<and> take 2 n = ''__'' \<and> drop (length n - 2) n = ''__'')"

text \<open>The attributes \<open>__init__\<close> assigns, and the methods the class defines.\<close>

definition instance_attributes :: "string list" where
  "instance_attributes =
     [''swdescription'', ''artifacts'', ''out'', ''artifactory'', ''cpiofile'', ''vars'',
      ''lines'', ''conf'', ''filelist'', ''temp'', ''signtool'', ''aeskey'', ''aesiv'',
      ''encryptswdesc'', ''nocompress'', ''noencrypt'', ''noivt'']"

definition class_methods :: "string list" where
  "class_methods =
     [''generate_iv'', ''_read_swdesc'', ''close'', ''process_entry'', ''find_files_in_swdesc'',
      ''save_swdescription'', ''process'', ''_expand_variables'', ''_exec_functions'',
      ''setenckey'', ''swupdate_get_sha256'', ''swupdate_get_size'']"

text \<open>
  \<open>self.__getattribute__(a)\<close> for a plain string \<open>a\<close>: the value of the attribute of
  that name. The template path is a string, key and IV are strings or \<open>None\<close>, the other
  instance attributes and the bound methods are no strings.
\<close>

definition getattribute :: "generator \<Rightarrow> string \<Rightarrow> error + evalres" where
  "getattribute g a =
     (if a = ''swdescription'' then Inr (RStr (swdescription g))
      else if a = ''aeskey'' then Inr (res_of_pyval (pyval_of_opt (aeskey g)))
      else if a = ''aesiv'' then Inr (res_of_pyval (pyval_of_opt (aesiv g)))
      else if a \<in> set instance_attributes \<or> a \<in> set class_methods then Inr RNonStr
      else if is_dunder a then Inl NotModelled
      else Inl (AttributeError a))"

text \<open>
  The value of the Python expression \<open>self.NAME("ARG")\<close> where \<open>ARG\<close> holds neither
  a double quote nor a backslash, so that the argument is the string \<open>ARG\<close> itself.
  \<open>NAME\<close> is looked up among all attributes of the generator object: the two lookups,
  the other methods (called with one string where they take none, two, or an entry),
  the instance attributes (not callable), and what \<open>object\<close> provides.
\<close>

definition eval_self_call :: "env \<Rightarrow> generator \<Rightarrow> string \<Rightarrow> string \<Rightarrow> error + evalres" where
  "eval_self_call ev g name arg =
     (if \<not> is_identifier name then Inl SyntaxError
      else if name = ''swupdate_get_sha256''
        then Inr (res_of_pyval (pyval_of_opt (swupdate_get_sha256 ev g arg)))
      else if name = ''swupdate_get_size'' then Inr (RStr (swupdate_get_size g arg))
      else if name = ''process_entry''
        then (if is_substring ''filename'' arg then Inl TypeError else Inr RNonStr)
      else if name = ''find_files_in_swdesc'' then Inl (AttributeError ''items'')
      else if name \<in> set class_methods then Inl TypeError
      else if name = ''cpiofile'' \<or> name = ''signtool'' then Inl NotModelled
      else if name \<in> set instance_attributes then Inl TypeError
      else if name = ''__init__'' then Inl TypeError
      else if name = ''__getattribute__'' then getattribute g arg
      else if is_dunder name then Inl NotModelled
      else Inl (AttributeError name))"

text \<open>
  \<open>eval\<close> on the source text \<open>_exec_functions\<close> builds. The text is read back as
  \<open>self.\<close>, a name, and one string literal in parentheses, made of printable ASCII
  characters other than the double quote and the backslash; any other text is outside
  the fragment.
\<close>

definition literal_char :: "char \<Rightarrow> bool" where
  "literal_char c =
     (let n = (of_char c :: nat) in 32 \<le> n \<and> n \<le> 126 \<and> n \<noteq> 34 \<and> n \<noteq> 92)"

definition parse_self_call :: "string \<Rightarrow> (string \<times> string) option" where
  "parse_self_call src =
     (if take 5 src = ''self.'' then
        (let r = drop 5 src;
             name = takeWhile is_word_char r;
             r2 = drop (length name) r;
             arg = take (length r2 - 4) (drop 2 r2)
         in if 4 \<le> length r2 \<and> take 2 r2 = [CHR ''('', CHR 0x22]
               \<and> drop (length r2 - 2) r2 = [CHR 0x22, CHR '')'']
               \<and> list_all literal_char arg
            then Some (name, arg) else None)
      else None)"

definition py_eval :: "env \<Rightarrow> generator \<Rightarrow> string \<Rightarrow> error + evalres" where
  "py_eval ev g src =
     (case parse_self_call src of
        None \<Rightarrow> Inl NotModelled
      | Some (name, arg) \<Rightarrow> eval_self_call ev g name arg)"

text \<open>The body of the loop of \<open>_exec_functions\<close> on one line, and the loop.\<close>

definition exec_line :: "env \<Rightarrow> generator \<Rightarrow> string \<Rightarrow> error + string" where
  "exec_line ev g line =
     (case fun_match line of
        None \<Rightarrow> Inr line
      | Some (b, f, p, a) \<Rightarrow>
          (let src = ''self.'' @ f @ [CHR ''('', CHR 0x22] @ p @ [CHR 0x22, CHR '')'']
           in (case py_eval ev g src of
                 Inl err \<Rightarrow> Inl err
               | Inr RNonStr \<Rightarrow> Inl TypeError
               | Inr (RStr ret) \<Rightarrow> Inr (b @ ret @ a @ [CHR 0x0A]))))"

fun exec_lines :: "env \<Rightarrow> generator \<Rightarrow> string list \<Rightarrow> error + string list" where
  "exec_lines ev g [] = Inr []"
| "exec_lines ev g (l # ls) =
     (case exec_line ev g l of
        Inl err \<Rightarrow> Inl err
      | Inr l1 \<Rightarrow>
          (case exec_lines ev g ls of
             Inl err \<Rightarrow> Inl err
           | Inr ls1 \<Rightarrow> Inr (l1 # ls1)))"

definition exec_functions :: "env \<Rightarrow> generator \<Rightarrow> error + generator" where
  "exec_functions ev g = map_sum id (\<lambda>ls. g\<lparr>lines := ls\<rparr>) (exec_lines ev g (lines g))"

definition expand_variables :: "generator \<Rightarrow> (error + generator) option" where
  "expand_variables g =
     map_option (map_sum id (\<lambda>ls. g\<lparr>lines := ls\<rparr>)) (expand_lines (vars g) (lines g))"

section \<open>Writing the package\<close>

text \<open>\<open>re.sub\<close> of a backslash followed by \<open>c\<close> with the character \<open>r\<close>.\<close>

fun unescape :: "char \<Rightarrow> char \<Rightarrow> string \<Rightarrow> string" where
  "unescape c r (x # y # s) =
     (if x = CHR 0x5C \<and> y = c then r # unescape c r s else x # unescape c r (y # s))"
| "unescape c r s = s"

text \<open>Lines 187 to 193 of \<open>process\<close>: the manifest and its signature enter the registry.\<close>

definition register_swdescription :: "generator \<Rightarrow> generator" where
  "register_swdescription g =
     (let sw = (Artifact (fs g) ''sw-description'' (artifactory g))
                 \<lparr>archived_filename := path_join (temp g) ''sw-description''\<rparr>;
          g1 = g\<lparr>artifacts := artifacts g @ [sw]\<rparr>
      in (case signtool g1 of
            None \<Rightarrow> g1
          | Some sign \<Rightarrow>
              (let sig = (Artifact (fs g1) ''sw-description.sig'' (artifactory g1))
                           \<lparr>archived_filename := path_join (temp g1) ''sw-description.sig''\<rparr>
               in g1\<lparr>artifacts := artifacts g1 @ [sig]\<rparr>)))"

text \<open>
  Lines 198 to 214: the manifest is written to the temporary directory and signed.
  The signing backend is the \<open>signtool\<close> function of the state.
\<close>

definition write_swdescription :: "env \<Rightarrow> generator \<Rightarrow> entry list \<Rightarrow> generator" where
  "write_swdescription ev g es =
     (let swdesc = unescape CHR 0x74 CHR 0x09 (unescape CHR 0x6E CHR 0x0A (libconf_dumps ev es));
          swdesc_filename = path_join (temp g) ''sw-description'';
          g1 = g\<lparr>fs := (fs g)(swdesc_filename \<mapsto> swdesc)\<rparr>
      in (case signtool g1 of
            None \<Rightarrow> g1
          | Some sign \<Rightarrow>
              g1\<lparr>fs := (fs g1)(path_join (temp g1) ''sw-description.sig'' \<mapsto> sign swdesc)\<rparr>))"

text \<open>
  Lines 217 to 227: the manifest is encrypted. \<open>sw\<close> is the artifact registered first,
  at index \<open>i\<close> of the registry. What \<open>encrypt\<close> returns is dropped; \<open>shutil.copyfile\<close>
  raises when the encrypted file is not there.
\<close>

definition encrypt_swdescription :: "env \<Rightarrow> generator \<Rightarrow> nat \<Rightarrow> error + generator" where
  "encrypt_swdescription ev g i =
     (if encryptswdesc g then
        (let g1 = (if no_key (aeskey g)
                   then g\<lparr>critical_log := critical_log g @ [''sw-description must be encrypted, but no encryption key is given'']\<rparr>
                   else g);
             iv = aesiv g1;
             swdesc_filename = path_join (temp g1) ''sw-description'';
             sw = (artifacts g1 ! i)\<lparr>fullfilename := Some swdesc_filename\<rparr>;
             g2 = g1\<lparr>artifacts := (artifacts g1)[i := sw]\<rparr>;
             swdesc_enc = swdesc_filename @ ''.enc''
         in (case encrypt ev (fs g2) sw swdesc_enc (aeskey g2) iv of
               Inl err \<Rightarrow> Inl err
             | Inr (ok, fs') \<Rightarrow>
                 (case fs' swdesc_enc of
                    None \<Rightarrow> Inl (FileNotFoundError swdesc_enc)
                  | Some content \<Rightarrow> Inr (g2\<lparr>fs := fs'(swdesc_filename \<mapsto> content)\<rparr>))))
      else Inr g)"

text \<open>
  Modelled from the spec: \<open>SWUFile.addartifacttoswu\<close>, whose source is not part of
  the files at hand, is the package assembler that receives the final ordered list of
  artifacts; here it records the path it is given.

  Lines 229 to 230: every registered artifact goes to the container writer by its
  \<open>fullfilename\<close> attribute, which is read before the call.
\<close>

fun package_artifacts :: "string list \<Rightarrow> artifact list \<Rightarrow> error + string list" where
  "package_artifacts cpio [] = Inr cpio"
| "package_artifacts cpio (a # as) =
     (case fullfilename a of
        None \<Rightarrow> Inl (AttributeError ''fullfilename'')
      | Some p \<Rightarrow> package_artifacts (cpio @ [p]) as)"

text \<open>
  \<open>process\<close> from line 187 on, for the entries the tree walk has collected.
\<close>

definition process_filelist :: "env \<Rightarrow> generator \<Rightarrow> entry list \<Rightarrow> error + (generator \<times> entry list)" where
  "process_filelist ev g filelist =
     (let i = length (artifacts g);
          g1 = register_swdescription g
      in (case process_entries ev g1 filelist of
            Inl err \<Rightarrow> Inl err
          | Inr (g2, es) \<Rightarrow>
              (case encrypt_swdescription ev (write_swdescription ev g2 es) i of
                 Inl err \<Rightarrow> Inl err
               | Inr g3 \<Rightarrow>
                   (case package_artifacts (cpiofile g3) (artifacts g3) of
                      Inl err \<Rightarrow> Inl err
                    | Inr cpio \<Rightarrow> Inr (g3\<lparr>cpiofile := cpio\<rparr>, es)))))"

section \<open>Inputs for evaluation\<close>

text \<open>
  A stand-in for the cipher that behaves as \<open>openssl enc\<close> does on its key and IV: hex
  digits (none at all included, which the tool pads with zeros) give exit status 0 and a
  ciphertext; anything else gives a nonzero exit after the output file was created empty.
\<close>

definition is_hex :: "char \<Rightarrow> bool" where
  "is_hex c =
     (let n = (of_char c :: nat)
      in (48 \<le> n \<and> n \<le> 57) \<or> (65 \<le> n \<and> n \<le> 70) \<or> (97 \<le> n \<and> n \<le> 102))"

definition toy_openssl :: "string \<Rightarrow> string \<Rightarrow> bytes \<Rightarrow> bool \<times> bytes option" where
  "toy_openssl k iv c =
     (if list_all is_hex k \<and> list_all is_hex iv then (True, Some (''enc:'' @ c))
      else (False, Some []))"

definition env0 :: env where
  "env0 =
     \<lparr>sha256 = (\<lambda>b. ''sha256:'' @ b),
      openssl_enc = toy_openssl,
      gzip = (\<lambda>b. Some (''gz:'' @ b)),
      zstd = (\<lambda>b. Some (''zst:'' @ b)),
      token_hex = (\<lambda>n. ''1f'' @ str_of_nat n),
      libconf_dumps = (\<lambda>es. [])\<rparr>"

definition gen0 :: generator where
  "gen0 =
     \<lparr>swdescription = ''sw-description.in'',
      artifacts = [],
      artifactory = [''/work''],
      vars = Map.empty,
      lines = [],
      temp = ''/tmp/swu'',
      signtool = None,
      aeskey = Some ''00ff'',
      aesiv = Some ''0a0b'',
      encryptswdesc = False,
      nocompress = False,
      noencrypt = False,
      noivt = False,
      fs = [''/work/app.bin'' \<mapsto> ''payload''],
      drawn = 0,
      critical_log = [],
      cpiofile = []\<rparr>"

definition entry_enc :: entry where
  "entry_enc = [''filename'' \<mapsto> PStr ''app.bin'', ''encrypted'' \<mapsto> PBool True]"

definition entry_zstd :: entry where
  "entry_zstd = [''filename'' \<mapsto> PStr ''app.bin'', ''compressed'' \<mapsto> PStr ''zstd'']"

definition entry_plain :: entry where
  "entry_plain = [''filename'' \<mapsto> PStr ''app.bin'']"

text \<open>A key file with the line \<open>key=\<close> gives the empty key.\<close>

definition gen_empty_key :: generator where
  "gen_empty_key = gen0\<lparr>aeskey := Some []\<rparr>"

text \<open>
  Whole-manifest encryption with the key and IV \<open>X\<close>, and a file named
  \<open>sw-description\<close> in the search directory.
\<close>

definition gen_bad_key :: generator where
  "gen_bad_key =
     gen0\<lparr>encryptswdesc := True, aeskey := Some ''X'', aesiv := Some ''X'',
          fs := [''/work/sw-description'' \<mapsto> ''software = { }'']\<rparr>"



section \<open>Conditions on a run\<close>

text \<open>The string filenames of a list of entries.\<close>

definition filenames :: "entry list \<Rightarrow> string list" where
  "filenames es =
     concat (map (\<lambda>e. case e ''filename'' of Some (PStr f) \<Rightarrow> [f] | _ \<Rightarrow> []) es)"

text \<open>Where the encrypted copy of the artifact named \<open>f\<close> is written.\<close>

definition enc_path :: "generator \<Rightarrow> string \<Rightarrow> string" where
  "enc_path g f = path_join (temp g) (f @ ''.enc'')"


text \<open>
  What an entry shows of an artifact once \<open>process_entry\<close> is done with it: its
  archived name, the digest \<open>get_sha256\<close> gives on the file system \<open>fsys\<close>, and
  for an entry with \<open>encrypted\<close> its IV.
\<close>

definition entry_reflects :: "env \<Rightarrow> filesystem \<Rightarrow> entry \<Rightarrow> entry \<Rightarrow> artifact \<Rightarrow> bool" where
  "entry_reflects ev fsys e e' a =
     (e' ''filename'' = Some (PStr (archived_filename a))
      \<and> e' ''sha256'' = Some (pyval_of_opt (get_sha256 ev fsys a))
      \<and> (''encrypted'' \<in> dom e \<longrightarrow> e' ''ivt'' = ivt a))"


definition entry_gz :: entry where
  "entry_gz = [''filename'' \<mapsto> PStr ''app.bin'', ''compressed'' \<mapsto> PBool True]"


definition entry_missing_false :: entry where
  "entry_missing_false =
     [''filename'' \<mapsto> PStr ''missing.bin'', ''compressed'' \<mapsto> PBool False]"


definition entry_false :: entry where
  "entry_false = [''filename'' \<mapsto> PStr ''app.bin'', ''compressed'' \<mapsto> PBool False]"

section \<open>The patterns need a prefix and a suffix\<close>

lemma first_some_SomeD:
  "first_some f n = Some r \<Longrightarrow> \<exists>k. 0 < k \<and> k \<le> n \<and> f k = Some r"
proof (induction n)
  case 0
  then show ?case by simp
next
  case (Suc n)
  show ?case
  proof (cases "f (Suc n)")
    case None
    with Suc obtain k where "0 < k" "k \<le> n" "f k = Some r" by auto
    then show ?thesis by (intro exI[of _ k]) simp
  next
    case (Some a)
    with Suc.prems have "f (Suc n) = Some r" by simp
    then show ?thesis by (intro exI[of _ "Suc n"]) simp
  qed
qed

lemma rx_match_LitD:
  assumes "rx_match (Lit l # r) s = Some gs"
  shows "\<exists>t. s = l @ t \<and> rx_match r t = Some gs"
proof -
  from assms have tk: "take (length l) s = l" and m: "rx_match r (drop (length l) s) = Some gs"
    by (auto split: if_splits)
  have "s = l @ drop (length l) s"
    using tk by (metis append_take_drop_id)
  with m show ?thesis by blast
qed

lemma rx_match_PlusD:
  assumes "rx_match (Plus p # r) s = Some gs"
  shows "\<exists>b t gs'. s = b @ t \<and> b \<noteq> [] \<and> (\<forall>c \<in> set b. p c) \<and> gs = b # gs' \<and> rx_match r t = Some gs'"
proof -
  have "first_some (\<lambda>k. map_option ((#) (take k s)) (rx_match r (drop k s)))
          (length (takeWhile p s)) = Some gs"
    using assms by simp
  from first_some_SomeD[OF this] obtain k where k: "0 < k" "k \<le> length (takeWhile p s)"
    and f: "map_option ((#) (take k s)) (rx_match r (drop k s)) = Some gs"
    by blast
  from f obtain gs' where gs': "rx_match r (drop k s) = Some gs'" "gs = take k s # gs'"
    by (cases "rx_match r (drop k s)") auto
  have le: "k \<le> length s"
    using k(2) length_takeWhile_le[of p s] by linarith
  have "take k (takeWhile p s @ dropWhile p s) = take k (takeWhile p s)"
    using k(2) by (simp del: takeWhile_dropWhile_id)
  then have tk: "take k s = take k (takeWhile p s)"
    by (simp only: takeWhile_dropWhile_id)
  have allp: "\<forall>c \<in> set (take k s). p c"
  proof
    fix c assume "c \<in> set (take k s)"
    then have "c \<in> set (takeWhile p s)" unfolding tk by (rule in_set_takeD)
    then show "p c" by (rule set_takeWhileD[THEN conjunct2])
  qed
  have ne: "take k s \<noteq> []" using k(1) le by auto
  have "s = take k s @ drop k s" by simp
  with gs' allp ne show ?thesis by blast
qed

lemma rx_match_endD: "rx_match [] s = Some gs \<Longrightarrow> gs = [] \<and> (s = [] \<or> s = [CHR 0x0A])"
  by (auto split: if_splits)

lemma var_match_SomeD:
  assumes "var_match s = Some (b, n, a)"
  shows "\<exists>t. s = b @ ''@@'' @ n @ ''@@'' @ a @ t \<and> (t = [] \<or> t = [CHR 0x0A])
           \<and> b \<noteq> [] \<and> n \<noteq> [] \<and> a \<noteq> []
           \<and> (\<forall>c \<in> set b. c \<noteq> CHR 0x0A) \<and> (\<forall>c \<in> set n. is_word_char c)
           \<and> (\<forall>c \<in> set a. c \<noteq> CHR 0x0A)"
proof -
  from assms have m: "rx_match var_pattern s = Some [b, n, a]"
    by (auto simp: var_match_def split: option.splits list.splits)
  from rx_match_PlusD[OF m[unfolded var_pattern_def]] obtain b1 t1 g1 where
    1: "s = b1 @ t1" "b1 \<noteq> []" "\<forall>c \<in> set b1. not_newline c" "[b, n, a] = b1 # g1"
       "rx_match [Lit ''@@'', Plus is_word_char, Lit ''@@'', Plus not_newline] t1 = Some g1"
    by blast
  from rx_match_LitD[OF 1(5)] obtain t2 where
    2: "t1 = ''@@'' @ t2" "rx_match [Plus is_word_char, Lit ''@@'', Plus not_newline] t2 = Some g1"
    by blast
  from rx_match_PlusD[OF 2(2)] obtain b3 t3 g3 where
    3: "t2 = b3 @ t3" "b3 \<noteq> []" "\<forall>c \<in> set b3. is_word_char c" "g1 = b3 # g3"
       "rx_match [Lit ''@@'', Plus not_newline] t3 = Some g3"
    by blast
  from rx_match_LitD[OF 3(5)] obtain t4 where
    4: "t3 = ''@@'' @ t4" "rx_match [Plus not_newline] t4 = Some g3"
    by blast
  from rx_match_PlusD[OF 4(2)] obtain b5 t5 g5 where
    5: "t4 = b5 @ t5" "b5 \<noteq> []" "\<forall>c \<in> set b5. not_newline c" "g3 = b5 # g5"
       "rx_match [] t5 = Some g5"
    by blast
  from rx_match_endD[OF 5(5)] have 6: "g5 = []" "t5 = [] \<or> t5 = [CHR 0x0A]"
    by simp_all
  have eqs: "b = b1" "n = b3" "a = b5"
    using 1(4) 3(4) 5(4) 6(1) by auto
  have "s = b @ ''@@'' @ n @ ''@@'' @ a @ t5"
    using 1(1) 2(1) 3(1) 4(1) 5(1) eqs by simp
  then show ?thesis
    using 6(2) 1(2,3) 3(2,3) 5(2,3) eqs by (auto simp: not_newline_def)
qed

lemma fun_match_SomeD:
  assumes "fun_match s = Some (b, f, p, a)"
  shows "\<exists>t. s = b @ ''$'' @ f @ ''('' @ p @ '')'' @ a @ t \<and> (t = [] \<or> t = [CHR 0x0A])
           \<and> b \<noteq> [] \<and> f \<noteq> [] \<and> p \<noteq> [] \<and> a \<noteq> []
           \<and> (\<forall>c \<in> set b. c \<noteq> CHR 0x0A) \<and> (\<forall>c \<in> set f. is_word_char c)
           \<and> (\<forall>c \<in> set p. c \<noteq> CHR 0x0A) \<and> (\<forall>c \<in> set a. c \<noteq> CHR 0x0A)"
proof -
  from assms have m: "rx_match fun_pattern s = Some [b, f, p, a]"
    by (auto simp: fun_match_def split: option.splits list.splits)
  from rx_match_PlusD[OF m[unfolded fun_pattern_def]] obtain b1 t1 g1 where
    1: "s = b1 @ t1" "b1 \<noteq> []" "\<forall>c \<in> set b1. not_newline c" "[b, f, p, a] = b1 # g1"
       "rx_match [Lit ''$'', Plus is_word_char, Lit ''('', Plus not_newline, Lit '')'', Plus not_newline] t1 = Some g1"
    by blast
  from rx_match_LitD[OF 1(5)] obtain t2 where
    2: "t1 = ''$'' @ t2"
       "rx_match [Plus is_word_char, Lit ''('', Plus not_newline, Lit '')'', Plus not_newline] t2 = Some g1"
    by blast
  from rx_match_PlusD[OF 2(2)] obtain b3 t3 g3 where
    3: "t2 = b3 @ t3" "b3 \<noteq> []" "\<forall>c \<in> set b3. is_word_char c" "g1 = b3 # g3"
       "rx_match [Lit ''('', Plus not_newline, Lit '')'', Plus not_newline] t3 = Some g3"
    by blast
  from rx_match_LitD[OF 3(5)] obtain t4 where
    4: "t3 = ''('' @ t4" "rx_match [Plus not_newline, Lit '')'', Plus not_newline] t4 = Some g3"
    by blast
  from rx_match_PlusD[OF 4(2)] obtain b5 t5 g5 where
    5: "t4 = b5 @ t5" "b5 \<noteq> []" "\<forall>c \<in> set b5. not_newline c" "g3 = b5 # g5"
       "rx_match [Lit '')'', Plus not_newline] t5 = Some g5"
    by blast
  from rx_match_LitD[OF 5(5)] obtain t6 where
    6: "t5 = '')'' @ t6" "rx_match [Plus not_newline] t6 = Some g5"
    by blast
  from rx_match_PlusD[OF 6(2)] obtain b7 t7 g7 where
    7: "t6 = b7 @ t7" "b7 \<noteq> []" "\<forall>c \<in> set b7. not_newline c" "g5 = b7 # g7"
       "rx_match [] t7 = Some g7"
    by blast
  from rx_match_endD[OF 7(5)] have 8: "g7 = []" "t7 = [] \<or> t7 = [CHR 0x0A]"
    by simp_all
  have eqs: "b = b1" "f = b3" "p = b5" "a = b7"
    using 1(4) 3(4) 5(4) 7(4) 8(1) by auto
  have "s = b @ ''$'' @ f @ ''('' @ p @ '')'' @ a @ t7"
    using 1(1) 2(1) 3(1) 4(1) 5(1) 6(1) 7(1) eqs by simp
  then show ?thesis
    using 8(2) 1(2,3) 3(2,3) 5(2,3) 7(2,3) eqs by (auto simp: not_newline_def)
qed

lemma var_match_SomeE:
  assumes "var_match s = Some (b, n, a)"
  obtains t where "s = b @ ''@@'' @ n @ ''@@'' @ a @ t" "t = [] \<or> t = [CHR 0x0A]"
    "b \<noteq> []" "n \<noteq> []" "a \<noteq> []"
proof -
  from var_match_SomeD[OF assms] obtain t where
    "s = b @ ''@@'' @ n @ ''@@'' @ a @ t \<and> (t = [] \<or> t = [CHR 0x0A])
           \<and> b \<noteq> [] \<and> n \<noteq> [] \<and> a \<noteq> []
           \<and> (\<forall>c \<in> set b. c \<noteq> CHR 0x0A) \<and> (\<forall>c \<in> set n. is_word_char c)
           \<and> (\<forall>c \<in> set a. c \<noteq> CHR 0x0A)" ..
  then have "s = b @ ''@@'' @ n @ ''@@'' @ a @ t" "t = [] \<or> t = [CHR 0x0A]"
    "b \<noteq> []" "n \<noteq> []" "a \<noteq> []"
    by simp_all
  then show thesis by (rule that)
qed

lemma fun_match_SomeE:
  assumes "fun_match s = Some (b, f, p, a)"
  obtains t where "s = b @ ''$'' @ f @ ''('' @ p @ '')'' @ a @ t" "t = [] \<or> t = [CHR 0x0A]"
    "b \<noteq> []" "f \<noteq> []" "p \<noteq> []" "a \<noteq> []" "\<forall>c \<in> set f. is_word_char c"
proof -
  from fun_match_SomeD[OF assms] obtain t where
    "s = b @ ''$'' @ f @ ''('' @ p @ '')'' @ a @ t \<and> (t = [] \<or> t = [CHR 0x0A])
           \<and> b \<noteq> [] \<and> f \<noteq> [] \<and> p \<noteq> [] \<and> a \<noteq> []
           \<and> (\<forall>c \<in> set b. c \<noteq> CHR 0x0A) \<and> (\<forall>c \<in> set f. is_word_char c)
           \<and> (\<forall>c \<in> set p. c \<noteq> CHR 0x0A) \<and> (\<forall>c \<in> set a. c \<noteq> CHR 0x0A)" ..
  then have "s = b @ ''$'' @ f @ ''('' @ p @ '')'' @ a @ t" "t = [] \<or> t = [CHR 0x0A]"
    "b \<noteq> []" "f \<noteq> []" "p \<noteq> []" "a \<noteq> []" "\<forall>c \<in> set f. is_word_char c"
    by simp_all
  then show thesis by (rule that)
qed

lemma var_start_no_match:
  assumes m: "CHR ''@'' \<notin> set m" and r: "CHR ''@'' \<notin> set r"
  shows "var_match (''@@'' @ m @ ''@@'' @ r) = None"
proof (rule ccontr)
  let ?s = "''@@'' @ m @ ''@@'' @ r"
  let ?cnt = "\<lambda>s. length (filter (\<lambda>c. c = CHR ''@'') s)"
  assume "var_match ?s \<noteq> None"
  then obtain b n a where "var_match ?s = Some (b, n, a)" by (cases "var_match ?s") auto
  then obtain t
    where s: "?s = b @ ''@@'' @ n @ ''@@'' @ a @ t" and b: "b \<noteq> []"
    by (rule var_match_SomeE)
  have "hd ?s = hd (b @ ''@@'' @ n @ ''@@'' @ a @ t)" by (rule arg_cong[OF s])
  also have "\<dots> = hd b" using b by simp
  finally have "hd b = CHR ''@''" by simp
  then have "CHR ''@'' \<in> set b" using b by (metis list.set_sel(1))
  then have pos: "0 < ?cnt b" by (simp add: filter_empty_conv)
  have c1: "?cnt ?s = ?cnt (b @ ''@@'' @ n @ ''@@'' @ a @ t)" by (rule arg_cong[OF s])
  have c2: "?cnt (b @ ''@@'' @ n @ ''@@'' @ a @ t) = ?cnt b + ?cnt n + ?cnt a + ?cnt t + 4"
    by simp
  have "filter (\<lambda>c. c = CHR ''@'') m = []" "filter (\<lambda>c. c = CHR ''@'') r = []"
    using m r by (auto simp: filter_empty_conv)
  then have c3: "?cnt ?s = 4" by simp
  show False using c1 c2 c3 pos by linarith
qed

lemma var_end_no_match:
  assumes l: "CHR ''@'' \<notin> set l" and m: "CHR ''@'' \<notin> set m"
  shows "var_match (l @ ''@@'' @ m @ ''@@'') = None"
proof (rule ccontr)
  let ?s = "l @ ''@@'' @ m @ ''@@''"
  let ?cnt = "\<lambda>s. length (filter (\<lambda>c. c = CHR ''@'') s)"
  assume "var_match ?s \<noteq> None"
  then obtain b n a where "var_match ?s = Some (b, n, a)" by (cases "var_match ?s") auto
  then obtain t
    where s: "?s = b @ ''@@'' @ n @ ''@@'' @ a @ t" and a: "a \<noteq> []"
      and t: "t = [] \<or> t = [CHR 0x0A]"
    by (rule var_match_SomeE)
  have ls: "last ?s = last (b @ ''@@'' @ n @ ''@@'' @ a @ t)" by (rule arg_cong[OF s])
  have la: "last ?s = CHR ''@''" by simp
  have t0: "t = []"
  proof (rule ccontr)
    assume "t \<noteq> []"
    with t have "t = [CHR 0x0A]" by simp
    then have "last (b @ ''@@'' @ n @ ''@@'' @ a @ t) = CHR 0x0A" by simp
    with ls la show False by simp
  qed
  have "last (b @ ''@@'' @ n @ ''@@'' @ a @ t) = last a" using a t0 by simp
  with ls la have "last a = CHR ''@''" by simp
  then have "CHR ''@'' \<in> set a" using a by (metis last_in_set)
  then have pos: "0 < ?cnt a" by (simp add: filter_empty_conv)
  have c1: "?cnt ?s = ?cnt (b @ ''@@'' @ n @ ''@@'' @ a @ t)" by (rule arg_cong[OF s])
  have c2: "?cnt (b @ ''@@'' @ n @ ''@@'' @ a @ t) = ?cnt b + ?cnt n + ?cnt a + ?cnt t + 4"
    by simp
  have "filter (\<lambda>c. c = CHR ''@'') l = []" "filter (\<lambda>c. c = CHR ''@'') m = []"
    using l m by (auto simp: filter_empty_conv)
  then have c3: "?cnt ?s = 4" by simp
  show False using c1 c2 c3 pos by linarith
qed

lemma fun_start_no_match:
  assumes r: "CHR ''$'' \<notin> set r"
  shows "fun_match (''$'' @ r) = None"
proof (rule ccontr)
  let ?s = "''$'' @ r"
  assume "fun_match ?s \<noteq> None"
  then obtain b f p a where "fun_match ?s = Some (b, f, p, a)"
    by (cases "fun_match ?s") auto
  then obtain t
    where s: "?s = b @ ''$'' @ f @ ''('' @ p @ '')'' @ a @ t" and b: "b \<noteq> []"
    by (rule fun_match_SomeE)
  from b obtain c b' where bc: "b = c # b'" by (cases b) auto
  with s have "r = b' @ ''$'' @ f @ ''('' @ p @ '')'' @ a @ t" by simp
  then have "CHR ''$'' \<in> set r" by simp
  with r show False by simp
qed

lemma fun_end_no_match:
  assumes x: "CHR '')'' \<notin> set x"
  shows "fun_match (x @ '')'') = None"
proof (rule ccontr)
  let ?s = "x @ '')''"
  assume "fun_match ?s \<noteq> None"
  then obtain b f p a where "fun_match ?s = Some (b, f, p, a)"
    by (cases "fun_match ?s") auto
  then obtain t
    where s: "?s = b @ ''$'' @ f @ ''('' @ p @ '')'' @ a @ t" and a: "a \<noteq> []"
    by (rule fun_match_SomeE)
  from a have "a @ t \<noteq> []" by simp
  then obtain u c where u: "a @ t = u @ [c]" by (metis rev_exhaust)
  have "x @ '')'' = (b @ ''$'' @ f @ ''('' @ p @ '')'' @ u) @ [c]"
    using s u by simp
  then have "x = b @ ''$'' @ f @ ''('' @ p @ '')'' @ u" by simp
  then have "CHR '')'' \<in> set x" by simp
  with x show False by simp
qed

lemma expand_line_no_match: "var_match line = None \<Longrightarrow> expand_line vs line = Some (Inr line)"
  by (subst expand_line.simps) simp

lemma exec_line_no_match: "fun_match line = None \<Longrightarrow> exec_line ev g line = Inr line"
  by (simp add: exec_line_def)

text \<open>
  C8. Whenever the variable pattern matches, the text before the placeholder and the text
  after it are both non-empty, and the line is exactly prefix, placeholder, suffix and
  at most a final newline. So a line whose only placeholder stands at its very start, or
  at its very end with nothing after it, is left as it is by variable substitution. The
  function pattern has the same requirement: a match has a non-empty prefix and suffix,
  and a line with its only \<open>$\<close> at the start, or its only closing parenthesis at
  the end, is left as it is.
\<close>

theorem placeholder_needs_prefix_and_suffix:
  "(var_match s = Some (b, n, a) \<longrightarrow>
      b \<noteq> [] \<and> a \<noteq> [] \<and>
      (s = b @ ''@@'' @ n @ ''@@'' @ a \<or> s = b @ ''@@'' @ n @ ''@@'' @ a @ [CHR 0x0A]))
   \<and> (CHR ''@'' \<notin> set m \<union> set r \<longrightarrow>
        expand_line vs (''@@'' @ m @ ''@@'' @ r) = Some (Inr (''@@'' @ m @ ''@@'' @ r)))
   \<and> (CHR ''@'' \<notin> set l \<union> set m \<longrightarrow>
        expand_line vs (l @ ''@@'' @ m @ ''@@'') = Some (Inr (l @ ''@@'' @ m @ ''@@'')))
   \<and> (fun_match s' = Some (b', f, p, a') \<longrightarrow>
        b' \<noteq> [] \<and> a' \<noteq> [] \<and>
        (s' = b' @ ''$'' @ f @ ''('' @ p @ '')'' @ a'
         \<or> s' = b' @ ''$'' @ f @ ''('' @ p @ '')'' @ a' @ [CHR 0x0A]))
   \<and> (CHR ''$'' \<notin> set r' \<longrightarrow> exec_line ev g (''$'' @ r') = Inr (''$'' @ r'))
   \<and> (CHR '')'' \<notin> set x \<longrightarrow> exec_line ev g (x @ '')'') = Inr (x @ '')''))"
proof (intro conjI impI)
  assume "var_match s = Some (b, n, a)"
  then obtain t
    where "s = b @ ''@@'' @ n @ ''@@'' @ a @ t" "t = [] \<or> t = [CHR 0x0A]"
    "b \<noteq> []" "a \<noteq> []"
    by (rule var_match_SomeE)
  then show "b \<noteq> []" "a \<noteq> []"
    "s = b @ ''@@'' @ n @ ''@@'' @ a \<or> s = b @ ''@@'' @ n @ ''@@'' @ a @ [CHR 0x0A]"
    by auto
next
  assume "CHR ''@'' \<notin> set m \<union> set r"
  then show "expand_line vs (''@@'' @ m @ ''@@'' @ r) = Some (Inr (''@@'' @ m @ ''@@'' @ r))"
    by (intro expand_line_no_match var_start_no_match) auto
next
  assume "CHR ''@'' \<notin> set l \<union> set m"
  then show "expand_line vs (l @ ''@@'' @ m @ ''@@'') = Some (Inr (l @ ''@@'' @ m @ ''@@''))"
    by (intro expand_line_no_match var_end_no_match) auto
next
  assume "fun_match s' = Some (b', f, p, a')"
  then obtain t
    where "s' = b' @ ''$'' @ f @ ''('' @ p @ '')'' @ a' @ t" "t = [] \<or> t = [CHR 0x0A]"
    "b' \<noteq> []" "a' \<noteq> []"
    by (rule fun_match_SomeE)
  then show "b' \<noteq> []" "a' \<noteq> []"
    "s' = b' @ ''$'' @ f @ ''('' @ p @ '')'' @ a'
       \<or> s' = b' @ ''$'' @ f @ ''('' @ p @ '')'' @ a' @ [CHR 0x0A]"
    by auto
next
  assume "CHR ''$'' \<notin> set r'"
  then show "exec_line ev g (''$'' @ r') = Inr (''$'' @ r')"
    by (intro exec_line_no_match fun_start_no_match)
next
  assume "CHR '')'' \<notin> set x"
  then show "exec_line ev g (x @ '')'') = Inr (x @ '')'')"
    by (intro exec_line_no_match fun_end_no_match)
qed

theorem placeholder_needs_prefix_and_suffix_witness:
  "var_match ''name = @@X@@;'' = Some (''name = '', ''X'', '';'')
   \<and> expand_line Map.empty ''@@X@@ = 1;'' = Some (Inr ''@@X@@ = 1;'')
   \<and> expand_line Map.empty ''name = @@X@@'' = Some (Inr ''name = @@X@@'')
   \<and> fun_match ''sha = $f(a);'' = Some (''sha = '', ''f'', ''a'', '';'')
   \<and> exec_line env0 gen0 ''$f(a);'' = Inr ''$f(a);''
   \<and> exec_line env0 gen0 ''sha = $f(a)'' = Inr ''sha = $f(a)''"
proof -
  have v: "var_match ''name = @@X@@;'' = Some (''name = '', ''X'', '';'')" by code_simp
  have f: "fun_match ''sha = $f(a);'' = Some (''sha = '', ''f'', ''a'', '';'')" by code_simp
  show ?thesis
    using v f
      placeholder_needs_prefix_and_suffix[of "''name = @@X@@;''" "''name = ''" "''X''" "'';''"
        "''X''" "'' = 1;''" Map.empty "''name = ''" "''sha = $f(a);''" "''sha = ''" "''f''" "''a''" "'';''"
        "''f(a);''" env0 gen0 "''sha = $f(a''"]
    by simp
qed

section \<open>Resolution and the compression block\<close>

lemma source_path_None_iff:
  "get_artifact_source_path fsys f ds = None \<longleftrightarrow> (\<forall>d \<in> set ds. fsys (path_join d f) = None)"
  by (induction ds) (auto simp: Let_def)

lemma source_path_SomeD:
  "get_artifact_source_path fsys f ds = Some p \<Longrightarrow> (\<exists>d \<in> set ds. p = path_join d f) \<and> fsys p \<noteq> None"
  by (induction ds) (auto simp: Let_def split: if_splits)

lemma exists_Artifact:
  "exists_artifact fsys (Artifact fsys f ds) \<longleftrightarrow> (\<exists>d \<in> set ds. fsys (path_join d f) \<noteq> None)"
proof (cases "get_artifact_source_path fsys f ds")
  case None
  then show ?thesis
    using source_path_None_iff[of fsys f ds] by (simp add: exists_artifact_def Artifact_def)
next
  case (Some p)
  then have "\<not> (\<forall>d \<in> set ds. fsys (path_join d f) = None)"
    using source_path_None_iff[of fsys f ds] by simp
  moreover have "fsys p \<noteq> None" using source_path_SomeD[OF Some] by simp
  ultimately show ?thesis using Some by (simp add: exists_artifact_def Artifact_def)
qed

lemma compression_algorithm_truthy: "truthy c \<Longrightarrow> compression_algorithm c = Inr ''zlib''"
  by (simp add: compression_algorithm_def)

lemma compression_algorithm_falsy: "\<not> truthy c \<Longrightarrow> compression_algorithm c = Inl (SysExit 1)"
  by (cases c) (auto simp: compression_algorithm_def)


lemma compress_step_fresh:
  assumes "fullfilename new = None"
  shows "compress_step ev g e new =
           (case e ''compressed'' of
              None \<Rightarrow> Inr (new, g)
            | Some c \<Rightarrow> if nocompress g then Inr (new, g)
                        else if truthy c then Inl (AttributeError ''fullfilename'')
                        else Inl (SysExit 1))"
  using assms
  by (auto simp: compress_step_def compression_algorithm_truthy compression_algorithm_falsy Let_def
      split: option.splits)




text \<open>
  C9, as stated, fails: the artifact is looked up before the compression block, so an
  entry with \<open>compressed = false\<close> whose file is in no search directory ends the run
  with status 22, not 1.
\<close>

theorem missing_artifact_precedes_compression:
  "entry_missing_false ''compressed'' = Some (PBool False)
   \<and> find (\<lambda>image. filename image = ''missing.bin'') (artifacts gen0) = None
   \<and> \<not> nocompress gen0
   \<and> map_sum id (\<lambda>(g, e). e ''filename'') (process_entry env0 gen0 entry_missing_false)
     = Inl (SysExit 22)"
  by code_simp

text \<open>
  C9, amended. For an entry with a filename met for the first time whose artifact is
  found, a \<open>compressed\<close> key with a falsy value, and compression not switched off,
  processing ends with \<open>sys.exit(1)\<close>, the exit of the wrong-algorithm branch;
  compression is not skipped.
\<close>

theorem falsy_compressed_exits_1:
  assumes "e ''filename'' = Some (PStr f)"
    and "find (\<lambda>image. filename image = f) (artifacts g) = None"
    and "\<exists>d \<in> set (artifactory g). fs g (path_join d f) \<noteq> None"
    and "e ''compressed'' = Some c"
    and "\<not> truthy c"
    and "\<not> nocompress g"
  shows "process_entry ev g e = Inl (SysExit 1)"
proof -
  let ?new = "Artifact (fs g) f (artifactory g)"
  have ex: "exists_artifact (fs g) ?new"
    using assms(3) by (simp add: exists_Artifact)
  have "fullfilename (?new\<lparr>archived_filename := f\<rparr>) = None"
    by (simp add: Artifact_def)
  then have "compress_step ev g e (?new\<lparr>archived_filename := f\<rparr>) = Inl (SysExit 1)"
    using assms(4,5,6) by (simp add: compress_step_fresh)
  then have "new_artifact ev g e f = Inl (SysExit 1)"
    using ex by (simp add: new_artifact_def)
  then show ?thesis
    using assms(1,2) by (simp add: process_entry_def)
qed

theorem falsy_compressed_exits_1_witness:
  "entry_false ''filename'' = Some (PStr ''app.bin'')
   \<and> find (\<lambda>image. filename image = ''app.bin'') (artifacts gen0) = None
   \<and> fs gen0 (path_join ''/work'' ''app.bin'') = Some ''payload''
   \<and> entry_false ''compressed'' = Some (PBool False)
   \<and> \<not> truthy (PBool False) \<and> \<not> nocompress gen0
   \<and> process_entry env0 gen0 entry_false = Inl (SysExit 1)"
proof -
  have h: "entry_false ''filename'' = Some (PStr ''app.bin'')"
    "find (\<lambda>image. filename image = ''app.bin'') (artifacts gen0) = None"
    "\<exists>d \<in> set (artifactory gen0). fs gen0 (path_join d ''app.bin'') \<noteq> None"
    "entry_false ''compressed'' = Some (PBool False)"
    "\<not> truthy (PBool False)" "\<not> nocompress gen0"
    by (simp_all add: entry_false_def gen0_def path_join_def)
  have p: "fs gen0 (path_join ''/work'' ''app.bin'') = Some ''payload''"
    by (simp add: gen0_def path_join_def)
  from falsy_compressed_exits_1[where e = entry_false and f = "''app.bin''"
      and g = gen0 and ev = env0 and c = "PBool False", OF h] h p
  show ?thesis by simp
qed

text \<open>
  C2. The test \<open>if cmp:\<close> replaces every truthy value by \<open>zlib\<close>: the value
  \<open>zstd\<close> selects \<open>zlib\<close>, and so does a name outside the list. The entry with
  \<open>compressed = "zstd"\<close> then stops at the read of \<open>fullfilename\<close>.
\<close>

theorem zstd_entry_selects_zlib:
  "compression_algorithm (PStr ''zstd'') = Inr ''zlib''
   \<and> compression_algorithm (PStr ''lz4'') = Inr ''zlib''
   \<and> map_sum id (\<lambda>(g, e). e ''filename'') (process_entry env0 gen0 entry_zstd)
       = Inl (AttributeError ''fullfilename'')"
  by code_simp

section \<open>The encryption block and what an entry records\<close>

lemma find_append:
  "find P (xs @ ys) = (case find P xs of None \<Rightarrow> find P ys | Some x \<Rightarrow> Some x)"
  by (induction xs) auto

lemma encrypt_fs:
  "encrypt ev fsys a out key iv = Inr (ok, fs') \<Longrightarrow> fs' = fsys \<or> (\<exists>w. fs' = fsys(out \<mapsto> w))"
  by (auto simp: encrypt_def split: option.splits prod.splits)

lemma encrypt_step_skip:
  "''encrypted'' \<notin> dom e \<or> noencrypt g \<Longrightarrow> encrypt_step ev g e new = Inr (new, e, g)"
  by (auto simp: encrypt_step_def)

lemma encrypt_step_Inr:
  assumes "encrypt_step ev g e new = Inr (new2, e2, g2)"
  shows "temp g2 = temp g" and "artifactory g2 = artifactory g" and "artifacts g2 = artifacts g"
    and "filename new2 = filename new" and "source_path new2 = source_path new"
    and "fs g2 = fs g \<or> (\<exists>w. fs g2 = (fs g)(path_join (temp g) (archived_filename new @ ''.enc'') \<mapsto> w))"
    and "''encrypted'' \<in> dom e2 \<longleftrightarrow> ''encrypted'' \<in> dom e"
proof -
  show "temp g2 = temp g" "artifactory g2 = artifactory g" "artifacts g2 = artifacts g"
    "filename new2 = filename new" "source_path new2 = source_path new"
    "''encrypted'' \<in> dom e2 \<longleftrightarrow> ''encrypted'' \<in> dom e"
    using assms
    by (auto simp: encrypt_step_def Let_def split: if_splits sum.splits prod.splits)
  show "fs g2 = fs g \<or> (\<exists>w. fs g2 = (fs g)(path_join (temp g) (archived_filename new @ ''.enc'') \<mapsto> w))"
  proof (cases "''encrypted'' \<in> dom e \<and> \<not> noencrypt g")
    case False
    then have "encrypt_step ev g e new = Inr (new, e, g)" by (auto simp: encrypt_step_def)
    with assms show ?thesis by simp
  next
    case True
    let ?out = "path_join (temp g) (archived_filename new @ ''.enc'')"
    from assms True obtain a' k iv fs' where
      enc: "encrypt ev (fs g) a' ?out k iv = Inr (True, fs')" and g2: "fs g2 = fs'"
      by (auto simp: encrypt_step_def Let_def split: if_splits sum.splits prod.splits)
    from encrypt_fs[OF enc] g2 show ?thesis by simp
  qed
qed

lemma compress_step_fresh_Inr:
  assumes "compress_step ev g e new = Inr (new1, g1)" and "fullfilename new = None"
  shows "new1 = new \<and> g1 = g"
  using assms(1) unfolding compress_step_fresh[OF assms(2)]
  by (auto split: option.splits if_splits)

lemma new_artifact_InrE:
  assumes "new_artifact ev g e f = Inr (new, e1, g1)"
  obtains g2 where "exists_artifact (fs g) (Artifact (fs g) f (artifactory g))"
    and "encrypt_step ev g e ((Artifact (fs g) f (artifactory g))\<lparr>archived_filename := f\<rparr>)
           = Inr (new, e1, g2)"
    and "g1 = g2\<lparr>artifacts := artifacts g2 @ [new]\<rparr>"
proof -
  let ?a = "Artifact (fs g) f (artifactory g)"
  let ?new0 = "?a\<lparr>archived_filename := f\<rparr>"
  from assms have ex: "exists_artifact (fs g) ?a"
    by (auto simp: new_artifact_def Let_def split: if_splits)
  with assms obtain new1 g0 g2 where
    c: "compress_step ev g e ?new0 = Inr (new1, g0)"
    and s: "encrypt_step ev g0 e new1 = Inr (new, e1, g2)"
    and reg: "g1 = g2\<lparr>artifacts := artifacts g2 @ [new]\<rparr>"
    by (auto simp: new_artifact_def Let_def split: sum.splits prod.splits)
  have "fullfilename ?new0 = None" by (simp add: Artifact_def)
  from compress_step_fresh_Inr[OF c this] have "new1 = ?new0" "g0 = g" by simp_all
  with s have s': "encrypt_step ev g e ?new0 = Inr (new, e1, g2)" by simp
  from ex s' reg show thesis by (rule that)
qed

lemma new_artifact_Inr:
  assumes "new_artifact ev g e f = Inr (new, e1, g1)"
  shows "filename new = f"
    and "\<exists>d \<in> set (artifactory g). source_path new = Some (path_join d f)"
    and "artifacts g1 = artifacts g @ [new]"
    and "temp g1 = temp g" and "artifactory g1 = artifactory g"
    and "fs g1 = fs g \<or> (\<exists>w. fs g1 = (fs g)(enc_path g f \<mapsto> w))"
    and "''encrypted'' \<in> dom e1 \<longleftrightarrow> ''encrypted'' \<in> dom e"
    and "''encrypted'' \<notin> dom e \<or> noencrypt g \<Longrightarrow> fullfilename new = None"
proof -
  let ?a = "Artifact (fs g) f (artifactory g)"
  let ?new0 = "?a\<lparr>archived_filename := f\<rparr>"
  from new_artifact_InrE[OF assms] obtain g2 where
    ex: "exists_artifact (fs g) ?a"
    and s: "encrypt_step ev g e ?new0 = Inr (new, e1, g2)"
    and reg: "g1 = g2\<lparr>artifacts := artifacts g2 @ [new]\<rparr>"
    by blast
  note st = encrypt_step_Inr[OF s]
  show "filename new = f" using st(4) by (simp add: Artifact_def)
  show "\<exists>d \<in> set (artifactory g). source_path new = Some (path_join d f)"
  proof -
    from ex obtain p where p: "get_artifact_source_path (fs g) f (artifactory g) = Some p"
      by (auto simp: exists_artifact_def Artifact_def split: option.splits)
    from source_path_SomeD[OF p] obtain d where "d \<in> set (artifactory g)" "p = path_join d f"
      by blast
    moreover have "source_path new = Some p" using st(5) p by (simp add: Artifact_def)
    ultimately show ?thesis by blast
  qed
  show "artifacts g1 = artifacts g @ [new]" using reg st(3) by simp
  show "temp g1 = temp g" using reg st(1) by simp
  show "artifactory g1 = artifactory g" using reg st(2) by simp
  show "fs g1 = fs g \<or> (\<exists>w. fs g1 = (fs g)(enc_path g f \<mapsto> w))"
    using reg st(6) by (simp add: enc_path_def)
  show "''encrypted'' \<in> dom e1 \<longleftrightarrow> ''encrypted'' \<in> dom e" using st(7) .
  show "fullfilename new = None" if "''encrypted'' \<notin> dom e \<or> noencrypt g"
  proof -
    have "encrypt_step ev g e ?new0 = Inr (?new0, e, g)"
      by (rule encrypt_step_skip[OF that])
    then have "map_sum id fst (encrypt_step ev g e ?new0) = Inr ?new0" by simp
    moreover have "map_sum id fst (encrypt_step ev g e ?new0) = Inr new" using s by simp
    ultimately have "new = ?new0" by simp
    then show ?thesis by (simp add: Artifact_def)
  qed
qed

lemma finish_entry_Inr:
  assumes "finish_entry ev g e new = Inr e'"
  shows "entry_reflects ev (fs g) e e' new"
  using assms
  by (auto simp: finish_entry_def entry_reflects_def Let_def split: if_splits option.splits)

lemma process_entry_hit:
  assumes "e ''filename'' = Some (PStr f)"
    and "find (\<lambda>image. filename image = f) (artifacts g) = Some a"
    and "process_entry ev g e = Inr (g1, e1)"
  shows "g1 = g \<and> entry_reflects ev (fs g) e e1 a"
proof -
  from assms have "map_sum id (Pair g) (finish_entry ev g e a) = Inr (g1, e1)"
    by (simp add: process_entry_def)
  then have "g1 = g" "finish_entry ev g e a = Inr e1"
    by (cases "finish_entry ev g e a"; simp)+
  then show ?thesis using finish_entry_Inr by simp
qed

lemma process_entry_first:
  assumes "e ''filename'' = Some (PStr f)"
    and "find (\<lambda>image. filename image = f) (artifacts g) = None"
    and "process_entry ev g e = Inr (g1, e1)"
  obtains new e0 where "new_artifact ev g e f = Inr (new, e0, g1)"
    and "entry_reflects ev (fs g1) e e1 new"
    and "find (\<lambda>image. filename image = f) (artifacts g1) = Some new"
proof -
  from assms obtain new e0 g0 where
    n: "new_artifact ev g e f = Inr (new, e0, g0)"
    and fin: "map_sum id (Pair g0) (finish_entry ev g0 e0 new) = Inr (g1, e1)"
    by (auto simp: process_entry_def split: sum.splits prod.splits)
  from fin have g: "g0 = g1" and f: "finish_entry ev g1 e0 new = Inr e1"
    by (cases "finish_entry ev g0 e0 new"; simp)+
  note na = new_artifact_Inr[OF n]
  have r0: "entry_reflects ev (fs g1) e0 e1 new" using f by (rule finish_entry_Inr)
  have r: "entry_reflects ev (fs g1) e e1 new"
    using r0 na(7) by (simp add: entry_reflects_def)
  have "find (\<lambda>image. filename image = f) (artifacts g @ [new]) = Some new"
    using assms(2) na(1) by (simp add: find_append)
  then have fd: "find (\<lambda>image. filename image = f) (artifacts g1) = Some new"
    using na(3) g by simp
  from n g r fd show thesis by (intro that[of new e0]) simp_all
qed

text \<open>
  C1. For an encrypted entry the digest stored in the entry is the digest of the source
  file; the file the artifact now stands for (its \<open>fullfilename\<close>) holds the
  ciphertext, whose digest is another one.
\<close>

theorem sha256_entry_is_digest_of_source:
  "map_sum id
     (\<lambda>(g, e). (e ''filename'', e ''sha256'', map fullfilename (artifacts g),
                fs g ''/tmp/swu/app.bin.enc'',
                map_option (sha256 env0) (fs g ''/tmp/swu/app.bin.enc'')))
     (process_entry env0 gen0 entry_enc)
   = Inr (Some (PStr ''app.bin.enc''), Some (PStr ''sha256:payload''),
          [Some ''/tmp/swu/app.bin.enc''], Some ''enc:payload'', Some ''sha256:enc:payload'')"
  by code_simp

text \<open>
  C3. With an empty key the missing key is logged as critical, and the run goes on:
  the cipher is run, the encrypted file is written and the artifact is registered. With
  no key at all the run ends in the \<open>TypeError\<close> of \<open>subprocess.run\<close>, not in an
  exit of the generator.
\<close>

theorem missing_key_is_logged_not_fatal:
  "no_key (aeskey gen_empty_key)
   \<and> map_sum id
       (\<lambda>(g, e). (critical_log g, e ''filename'', fs g ''/tmp/swu/app.bin.enc'', map filename (artifacts g)))
       (process_entry env0 gen_empty_key entry_enc)
     = Inr ([''must be encrypted, but no encryption key is given''],
            Some (PStr ''app.bin.enc''), Some ''enc:payload'', [''app.bin''])
   \<and> map_sum id (\<lambda>(g, e). e ''filename'') (process_entry env0 (gen0\<lparr>aeskey := None\<rparr>) entry_enc)
     = Inl TypeError"
  by code_simp

text \<open>
  C6. \<open>process\<close> drops what \<open>encrypt\<close> returns for the manifest: with a key the
  cipher refuses, \<open>encrypt\<close> is \<open>False\<close> and the package is still assembled, with
  the empty file the cipher left behind as the manifest. When \<open>encrypt\<close> is \<open>False\<close>
  for want of a source, the run ends in the \<open>FileNotFoundError\<close> of the copy. The same
  key on an artifact ends the run with \<open>sys.exit(1)\<close>.
\<close>

theorem swdescription_encrypt_result_dropped:
  "(let g = write_swdescription env0 (register_swdescription gen_bad_key) []
    in map_sum id fst
         (encrypt env0 (fs g) (artifacts g ! 0) ''/tmp/swu/sw-description.enc''
            (aeskey g) (aesiv g)))
     = Inr False
   \<and> map_sum id (\<lambda>(g, es). (cpiofile g, fs g ''/tmp/swu/sw-description''))
       (process_filelist env0 gen_bad_key [])
     = Inr ([''/tmp/swu/sw-description''], Some [])
   \<and> map_sum id (\<lambda>(g, es). cpiofile g)
       (process_filelist env0 (gen0\<lparr>encryptswdesc := True\<rparr>) [])
     = Inl (FileNotFoundError ''/tmp/swu/sw-description.enc'')
   \<and> map_sum id (\<lambda>(g, e). e ''filename'')
       (process_entry env0 (gen0\<lparr>aeskey := Some ''X''\<rparr>) entry_enc)
     = Inl (SysExit 1)"
  by code_simp

section \<open>Repeated filenames\<close>

lemma filenames_Cons: "filenames (e # es) = filenames [e] @ filenames es"
  by (simp add: filenames_def)

lemma filenames_single: "e ''filename'' = Some (PStr f) \<Longrightarrow> filenames [e] = [f]"
  by (simp add: filenames_def)

lemma filenames_nth:
  "j < length es \<Longrightarrow> (es ! j) ''filename'' = Some (PStr f) \<Longrightarrow> f \<in> set (filenames es)"
proof (induction es arbitrary: j)
  case Nil
  then show ?case by simp
next
  case (Cons e es)
  show ?case
  proof (cases j)
    case 0
    with Cons.prems show ?thesis
      by (simp add: filenames_Cons[of e es] filenames_single)
  next
    case (Suc k)
    with Cons show ?thesis by (simp add: filenames_Cons[of e es])
  qed
qed

lemma process_entry_frame:
  assumes "process_entry ev g e = Inr (g1, e1)"
  shows "temp g1 = temp g" and "artifactory g1 = artifactory g"
    and "\<exists>ext. artifacts g1 = artifacts g @ ext
           \<and> (\<forall>a \<in> set ext. \<exists>d \<in> set (artifactory g). \<exists>f \<in> set (filenames [e]).
                  source_path a = Some (path_join d f))"
    and "fs g1 = fs g \<or> (\<exists>f \<in> set (filenames [e]). \<exists>w. fs g1 = (fs g)(enc_path g f \<mapsto> w))"
proof -
  consider (none) "e ''filename'' = None"
    | (hit) f a where "e ''filename'' = Some (PStr f)"
        "find (\<lambda>image. filename image = f) (artifacts g) = Some a"
    | (first) f where "e ''filename'' = Some (PStr f)"
        "find (\<lambda>image. filename image = f) (artifacts g) = None"
    | (other) v where "e ''filename'' = Some v" "\<forall>f. v \<noteq> PStr f"
  proof (cases "e ''filename''")
    case None
    then show ?thesis by (rule none)
  next
    case (Some v)
    show ?thesis
    proof (cases "\<exists>f. v = PStr f")
      case True
      then obtain f where v: "v = PStr f" by blast
      show ?thesis
      proof (cases "find (\<lambda>image. filename image = f) (artifacts g)")
        case None
        with Some v show ?thesis by (intro first[of f]) simp_all
      next
        case (Some a)
        with \<open>e ''filename'' = Some v\<close> v show ?thesis by (intro hit[of f a]) simp_all
      qed
    next
      case False
      with Some show ?thesis by (intro other[of v]) simp_all
    qed
  qed
  then have all: "temp g1 = temp g \<and> artifactory g1 = artifactory g
    \<and> (\<exists>ext. artifacts g1 = artifacts g @ ext
           \<and> (\<forall>a \<in> set ext. \<exists>d \<in> set (artifactory g). \<exists>f \<in> set (filenames [e]).
                  source_path a = Some (path_join d f)))
    \<and> (fs g1 = fs g \<or> (\<exists>f \<in> set (filenames [e]). \<exists>w. fs g1 = (fs g)(enc_path g f \<mapsto> w)))"
  proof cases
    case none
    with assms have "g1 = g" by (simp add: process_entry_def)
    then show ?thesis by simp
  next
    case (hit f a)
    from process_entry_hit[OF hit assms] have "g1 = g" by simp
    then show ?thesis by simp
  next
    case (first f)
    from process_entry_first[OF first assms] obtain new e0 where
      n: "new_artifact ev g e f = Inr (new, e0, g1)" by blast
    note na = new_artifact_Inr[OF n]
    have fn: "filenames [e] = [f]" using first(1) by (rule filenames_single)
    have "\<forall>a \<in> set [new]. \<exists>d \<in> set (artifactory g). \<exists>f \<in> set (filenames [e]).
                  source_path a = Some (path_join d f)"
      using na(2) fn by simp
    with na(3) have "\<exists>ext. artifacts g1 = artifacts g @ ext
           \<and> (\<forall>a \<in> set ext. \<exists>d \<in> set (artifactory g). \<exists>f \<in> set (filenames [e]).
                  source_path a = Some (path_join d f))"
      by blast
    moreover have "fs g1 = fs g \<or> (\<exists>f \<in> set (filenames [e]). \<exists>w. fs g1 = (fs g)(enc_path g f \<mapsto> w))"
      using na(6) fn by simp
    ultimately show ?thesis using na(4,5) by simp
  next
    case (other v)
    with assms have False
      by (cases v) (auto simp: process_entry_def split: if_splits)
    then show ?thesis ..
  qed
  from all show "temp g1 = temp g" by simp
  from all show "artifactory g1 = artifactory g" by simp
  from all show "\<exists>ext. artifacts g1 = artifacts g @ ext
           \<and> (\<forall>a \<in> set ext. \<exists>d \<in> set (artifactory g). \<exists>f \<in> set (filenames [e]).
                  source_path a = Some (path_join d f))" by simp
  from all show "fs g1 = fs g \<or> (\<exists>f \<in> set (filenames [e]). \<exists>w. fs g1 = (fs g)(enc_path g f \<mapsto> w))"
    by simp
qed





lemma process_entries_ConsE:
  assumes "process_entries ev g (e # es) = Inr (g', es')"
  obtains g1 e1 es1 where "process_entry ev g e = Inr (g1, e1)"
    and "process_entries ev g1 es = Inr (g', es1)" and "es' = e1 # es1"
  using assms by (auto split: sum.splits prod.splits)


lemma process_entries_length:
  "process_entries ev g es = Inr (g', es') \<Longrightarrow> length es' = length es"
proof (induction es arbitrary: g es')
  case Nil
  then show ?case by simp
next
  case (Cons e es)
  from process_entries_ConsE[OF Cons.prems] obtain g1 e1 es1 where
    "process_entries ev g1 es = Inr (g', es1)" "es' = e1 # es1" by blast
  with Cons.IH show ?case by simp
qed





section \<open>The attribute that is never assigned\<close>

lemma package_artifacts_unassigned:
  "a \<in> set as \<Longrightarrow> fullfilename a = None
     \<Longrightarrow> package_artifacts cpio as = Inl (AttributeError ''fullfilename'')"
proof (induction as arbitrary: cpio)
  case Nil
  then show ?case by simp
next
  case (Cons x xs)
  show ?case
  proof (cases "fullfilename x")
    case None
    then show ?thesis by simp
  next
    case (Some p)
    with Cons.prems have "a \<in> set xs" by auto
    from Cons.IH[OF this Cons.prems(2)] Some show ?thesis by simp
  qed
qed

lemma process_entries_prefix:
  "process_entries ev g es = Inr (g', es') \<Longrightarrow> \<exists>ext. artifacts g' = artifacts g @ ext"
proof (induction es arbitrary: g es')
  case Nil
  then show ?case by simp
next
  case (Cons e es)
  from Cons.prems obtain g1 e1 es1 where
    pe: "process_entry ev g e = Inr (g1, e1)"
    and rest: "process_entries ev g1 es = Inr (g', es1)"
    and es': "es' = e1 # es1"
    by (rule process_entries_ConsE)
  from process_entry_frame(3)[OF pe] obtain ext1 where e1: "artifacts g1 = artifacts g @ ext1"
    by (elim exE conjE)
  from Cons.IH[OF rest] obtain ext2 where e2: "artifacts g' = artifacts g1 @ ext2" ..
  from e1 e2 have "artifacts g' = artifacts g @ (ext1 @ ext2)" by simp
  then show ?case ..
qed

lemma register_swdescription_sw:
  "\<exists>sw rest. artifacts (register_swdescription g) = artifacts g @ sw # rest
      \<and> fullfilename sw = None"
  by (cases "signtool g") (simp_all add: register_swdescription_def Let_def Artifact_def)

lemma write_swdescription_artifacts:
  "artifacts (write_swdescription ev g es) = artifacts g"
  "cpiofile (write_swdescription ev g es) = cpiofile g"
  by (cases "signtool g"; simp add: write_swdescription_def Let_def)+

lemma process_entry_encryptswdesc:
  assumes "process_entry ev g e = Inr (g1, e1)"
  shows "encryptswdesc g1 = encryptswdesc g"
proof (cases "\<exists>f. e ''filename'' = Some (PStr f)
                \<and> find (\<lambda>image. filename image = f) (artifacts g) = None")
  case True
  then obtain f where f: "e ''filename'' = Some (PStr f)"
    "find (\<lambda>image. filename image = f) (artifacts g) = None" by blast
  from f assms obtain new e0 where "new_artifact ev g e f = Inr (new, e0, g1)"
    by (rule process_entry_first)
  then obtain g2 where s: "encrypt_step ev g e
      ((Artifact (fs g) f (artifactory g))\<lparr>archived_filename := f\<rparr>) = Inr (new, e0, g2)"
    and g1: "g1 = g2\<lparr>artifacts := artifacts g2 @ [new]\<rparr>"
    by (rule new_artifact_InrE)
  from s have "encryptswdesc g2 = encryptswdesc g"
    by (auto simp: encrypt_step_def Let_def split: if_splits sum.splits prod.splits)
  with g1 show ?thesis by simp
next
  case False
  have "g1 = g"
  proof (cases "e ''filename''")
    case None
    with assms show ?thesis by (simp add: process_entry_def)
  next
    case (Some v)
    show ?thesis
    proof (cases v)
      case (PStr f)
      with Some False obtain a where a: "find (\<lambda>image. filename image = f) (artifacts g) = Some a"
        by auto
      from Some PStr have "e ''filename'' = Some (PStr f)" by simp
      from process_entry_hit[OF this a assms] show ?thesis by simp
    qed (use assms Some in \<open>auto simp: process_entry_def split: if_splits\<close>)
  qed
  then show ?thesis by simp
qed

lemma process_entries_encryptswdesc:
  "process_entries ev g es = Inr (g', es') \<Longrightarrow> encryptswdesc g' = encryptswdesc g"
proof (induction es arbitrary: g es')
  case Nil
  then show ?case by simp
next
  case (Cons e es)
  from Cons.prems obtain g1 e1 es1 where
    pe: "process_entry ev g e = Inr (g1, e1)"
    and rest: "process_entries ev g1 es = Inr (g', es1)"
    and es': "es' = e1 # es1"
    by (rule process_entries_ConsE)
  from Cons.IH[OF rest] process_entry_encryptswdesc[OF pe] show ?case by simp
qed

lemma register_swdescription_encryptswdesc:
  "encryptswdesc (register_swdescription g) = encryptswdesc g"
  by (cases "signtool g") (simp_all add: register_swdescription_def Let_def)

lemma write_swdescription_encryptswdesc:
  "encryptswdesc (write_swdescription ev g es) = encryptswdesc g"
  by (cases "signtool g") (simp_all add: write_swdescription_def Let_def)

lemma process_filelist_plain_fails:
  assumes "\<not> encryptswdesc g"
    and run: "process_entries ev (register_swdescription g) es = Inr (g2, es')"
  shows "process_filelist ev g es = Inl (AttributeError ''fullfilename'')"
proof -
  from register_swdescription_sw[of g] obtain sw rest where
    sw: "artifacts (register_swdescription g) = artifacts g @ sw # rest" "fullfilename sw = None"
    by (elim exE conjE)
  from process_entries_prefix[OF run] obtain ext where
    "artifacts g2 = artifacts (register_swdescription g) @ ext" ..
  with sw(1) have mem: "sw \<in> set (artifacts g2)" by simp
  let ?g3 = "write_swdescription ev g2 es'"
  have "encryptswdesc g2 = encryptswdesc g"
    using process_entries_encryptswdesc[OF run] register_swdescription_encryptswdesc by simp
  with assms(1) have "\<not> encryptswdesc ?g3" by (simp add: write_swdescription_encryptswdesc)
  then have e: "encrypt_swdescription ev ?g3 (length (artifacts g)) = Inr ?g3"
    by (simp add: encrypt_swdescription_def)
  have "sw \<in> set (artifacts ?g3)" using mem by (simp add: write_swdescription_artifacts)
  from package_artifacts_unassigned[OF this sw(2)]
  have "package_artifacts (cpiofile ?g3) (artifacts ?g3) = Inl (AttributeError ''fullfilename'')" .
  with e run show ?thesis by (simp add: process_filelist_def Let_def)
qed

text \<open>
  C10. The constructor leaves \<open>fullfilename\<close> unassigned. The packaging loop over a
  registry that holds such an artifact ends in \<open>AttributeError\<close>. An artifact that a
  completed \<open>process_entry\<close> registers without encrypting it is such an artifact, and
  so is the manifest's own when the manifest is not encrypted: then \<open>process\<close> ends in
  that error once the entries are done. For an entry with a truthy \<open>compressed\<close>
  value the command line of the compressor reads the attribute, and \<open>process_entry\<close>
  ends in the same error.
\<close>

theorem fullfilename_never_assigned:
  "fullfilename (Artifact fsys f0 dirs) = None
   \<and> (a \<in> set as \<and> fullfilename a = None
        \<longrightarrow> package_artifacts cpio as = Inl (AttributeError ''fullfilename''))
   \<and> (e ''filename'' = Some (PStr f)
        \<and> find (\<lambda>image. filename image = f) (artifacts g) = None
        \<and> (''encrypted'' \<notin> dom e \<or> noencrypt g)
        \<and> process_entry ev g e = Inr (g1, e1)
        \<longrightarrow> (\<exists>new. artifacts g1 = artifacts g @ [new] \<and> filename new = f
                    \<and> fullfilename new = None)
            \<and> package_artifacts cpio (artifacts g1) = Inl (AttributeError ''fullfilename''))
   \<and> (\<not> encryptswdesc g' \<and> process_entries ev (register_swdescription g') es = Inr (g2, es')
        \<longrightarrow> process_filelist ev g' es = Inl (AttributeError ''fullfilename''))
   \<and> (c ''filename'' = Some (PStr f')
        \<and> find (\<lambda>image. filename image = f') (artifacts h) = None
        \<and> (\<exists>d \<in> set (artifactory h). fs h (path_join d f') \<noteq> None)
        \<and> c ''compressed'' = Some v \<and> truthy v \<and> \<not> nocompress h
        \<longrightarrow> process_entry ev h c = Inl (AttributeError ''fullfilename''))"
proof (intro conjI impI)
  show "fullfilename (Artifact fsys f0 dirs) = None" by (simp add: Artifact_def)
next
  assume "a \<in> set as \<and> fullfilename a = None"
  then show "package_artifacts cpio as = Inl (AttributeError ''fullfilename'')"
    using package_artifacts_unassigned by blast
next
  assume h: "e ''filename'' = Some (PStr f)
        \<and> find (\<lambda>image. filename image = f) (artifacts g) = None
        \<and> (''encrypted'' \<notin> dom e \<or> noencrypt g)
        \<and> process_entry ev g e = Inr (g1, e1)"
  then have fn: "e ''filename'' = Some (PStr f)"
    and fd: "find (\<lambda>image. filename image = f) (artifacts g) = None"
    and ne: "''encrypted'' \<notin> dom e \<or> noencrypt g"
    and pe: "process_entry ev g e = Inr (g1, e1)" by simp_all
  from fn fd pe obtain new e0 where n: "new_artifact ev g e f = Inr (new, e0, g1)"
    by (rule process_entry_first)
  note na = new_artifact_Inr[OF n]
  from na(3) na(1) na(8)[OF ne]
  show "\<exists>new. artifacts g1 = artifacts g @ [new] \<and> filename new = f \<and> fullfilename new = None"
    by blast
  have "new \<in> set (artifacts g1)" using na(3) by simp
  from package_artifacts_unassigned[OF this na(8)[OF ne]]
  show "package_artifacts cpio (artifacts g1) = Inl (AttributeError ''fullfilename'')" .
next
  assume "\<not> encryptswdesc g' \<and> process_entries ev (register_swdescription g') es = Inr (g2, es')"
  then show "process_filelist ev g' es = Inl (AttributeError ''fullfilename'')"
    using process_filelist_plain_fails by blast
next
  assume h: "c ''filename'' = Some (PStr f')
        \<and> find (\<lambda>image. filename image = f') (artifacts h) = None
        \<and> (\<exists>d \<in> set (artifactory h). fs h (path_join d f') \<noteq> None)
        \<and> c ''compressed'' = Some v \<and> truthy v \<and> \<not> nocompress h"
  let ?new = "Artifact (fs h) f' (artifactory h)"
  have ex: "exists_artifact (fs h) ?new"
    using h by (simp add: exists_Artifact)
  have "fullfilename (?new\<lparr>archived_filename := f'\<rparr>) = None"
    by (simp add: Artifact_def)
  then have "compress_step ev h c (?new\<lparr>archived_filename := f'\<rparr>)
               = Inl (AttributeError ''fullfilename'')"
    using h by (simp add: compress_step_fresh)
  then have "new_artifact ev h c f' = Inl (AttributeError ''fullfilename'')"
    using ex by (simp add: new_artifact_def)
  then show "process_entry ev h c = Inl (AttributeError ''fullfilename'')"
    using h by (simp add: process_entry_def)
qed

theorem fullfilename_never_assigned_witness:
  "fullfilename (Artifact (fs gen0) ''app.bin'' (artifactory gen0)) = None
   \<and> package_artifacts [] [Artifact (fs gen0) ''app.bin'' (artifactory gen0)]
       = Inl (AttributeError ''fullfilename'')
   \<and> \<not> isl (process_entry env0 gen0 entry_plain)
   \<and> package_artifacts [] (artifacts (fst (projr (process_entry env0 gen0 entry_plain))))
       = Inl (AttributeError ''fullfilename'')
   \<and> \<not> isl (process_entries env0 (register_swdescription gen0) [entry_plain])
   \<and> process_filelist env0 gen0 [entry_plain] = Inl (AttributeError ''fullfilename'')
   \<and> process_entry env0 gen0 entry_gz = Inl (AttributeError ''fullfilename'')"
proof -
  let ?a = "Artifact (fs gen0) ''app.bin'' (artifactory gen0)"
  let ?r = "process_entry env0 gen0 entry_plain"
  let ?rs = "process_entries env0 (register_swdescription gen0) [entry_plain]"
  have ok: "\<not> isl ?r" by code_simp
  then have run: "?r = Inr (fst (projr ?r), snd (projr ?r))" by (cases ?r) simp_all
  have oks: "\<not> isl ?rs" by code_simp
  then have runs: "?rs = Inr (fst (projr ?rs), snd (projr ?rs))" by (cases ?rs) simp_all
  have h3: "entry_plain ''filename'' = Some (PStr ''app.bin'')"
    "find (\<lambda>image. filename image = ''app.bin'') (artifacts gen0) = None"
    "''encrypted'' \<notin> dom entry_plain \<or> noencrypt gen0"
    by (simp_all add: entry_plain_def gen0_def)
  have h4: "\<not> encryptswdesc gen0" by (simp add: gen0_def)
  have h5: "entry_gz ''filename'' = Some (PStr ''app.bin'')"
    "\<exists>d \<in> set (artifactory gen0). fs gen0 (path_join d ''app.bin'') \<noteq> None"
    "entry_gz ''compressed'' = Some (PBool True)" "truthy (PBool True)" "\<not> nocompress gen0"
    by (simp_all add: entry_gz_def gen0_def path_join_def)
  have mem: "?a \<in> set [?a]" by simp
  from fullfilename_never_assigned[of "fs gen0" "''app.bin''" "artifactory gen0" ?a "[?a]" "[]"
      entry_plain "''app.bin''" gen0 env0 "fst (projr ?r)" "snd (projr ?r)" gen0 "[entry_plain]"
      "fst (projr ?rs)" "snd (projr ?rs)" entry_gz "''app.bin''" gen0 "PBool True"]
    ok oks run runs h3 h4 h5 mem
  show ?thesis by simp
qed

section \<open>Function directives are attribute calls\<close>







end
